theory Spec2Isabelle
  imports Complex_Main
begin

section \<open>Data model\<close>

text \<open>
  The game of \<^verbatim>\<open>script.js\<close>: enemies spawn on a canvas from a self-rescheduling timer,
  a click removes the first enemy under the pointer, and the game ends at 20 live enemies.
  JavaScript Numbers are read as reals: the rounding of IEEE doubles is not part of the
  model. Painting (\<^verbatim>\<open>frame\<close>, \<^verbatim>\<open>draw\<close>, \<^verbatim>\<open>mapColor\<close>, the border colour,
  the drawing context \<^verbatim>\<open>ctx\<close>) reads the game and writes only to the DOM; it is left out.
\<close>

text \<open>The object literals \<^verbatim>\<open>{x: .., y: ..}\<close> and \<^verbatim>\<open>{w: .., h: ..}\<close>.\<close>

record XY =
  xy_x :: real
  xy_y :: real

record WH =
  wh_w :: real
  wh_h :: real

text \<open>\<^verbatim>\<open>class Rect\<close>: the fields \<^verbatim>\<open>xy\<close> and \<^verbatim>\<open>wh\<close>.\<close>

record Rect =
  rect_xy :: XY
  rect_wh :: WH

text \<open>\<^verbatim>\<open>class Enemy\<close>: the fields \<^verbatim>\<open>rect\<close> and \<^verbatim>\<open>img\<close>.\<close>

record Enemy =
  enemy_rect :: Rect
  enemy_img :: string

text \<open>\<^verbatim>\<open>class Player\<close>.\<close>

record Player =
  points :: int

text \<open>
  What the code reads of a DOM element: its size, and its offset chain. The chain is
  finite; the outermost element has no \<^verbatim>\<open>offsetParent\<close>.
\<close>

datatype HTMLElement =
  HTMLElement (el_width: real) (el_height: real) (offsetLeft: real) (offsetTop: real)
    (offsetParent: "HTMLElement option")

text \<open>\<^verbatim>\<open>class Canvas\<close>: the field \<^verbatim>\<open>element\<close>.\<close>

record Canvas =
  element :: HTMLElement

text \<open>
  \<^verbatim>\<open>class Game\<close>. The array \<^verbatim>\<open>enemies\<close> holds references to Enemy objects;
  a reference is a natural number, the object it denotes is in the store below.
\<close>

record Game =
  canvas :: Canvas
  enemies :: "nat list"
  player :: Player
  difficulty :: real
  state :: bool

text \<open>
  The global \<^verbatim>\<open>game\<close> together with the host: the store of Enemy objects
  (\<open>heap\<close>, with \<open>fresh\<close> the next unused reference) and the callbacks of
  \<^verbatim>\<open>setTimeout(timeout, d)\<close> that have not fired yet, each with its delay.
\<close>

record world = Game +
  heap :: "nat \<Rightarrow> Enemy"
  fresh :: nat
  timers :: "real list"

text \<open>The event object of a click: the two fields the handler reads.\<close>

record MouseEvent =
  clientX :: real
  clientY :: real

section \<open>Operations of \<^verbatim>\<open>script.js\<close>\<close>

definition Canvas_width :: "Canvas \<Rightarrow> real" where
  "Canvas_width this = el_width (element this)"

definition Canvas_height :: "Canvas \<Rightarrow> real" where
  "Canvas_height this = el_height (element this)"

text \<open>\<^verbatim>\<open>Rect.hasCollided(xy)\<close>.\<close>

definition hasCollided :: "Rect \<Rightarrow> XY \<Rightarrow> bool" where
  "hasCollided this p =
     (if xy_x p \<ge> xy_x (rect_xy this) \<and> xy_x p \<le> xy_x (rect_xy this) + wh_w (rect_wh this)
         \<and> xy_y p \<ge> xy_y (rect_xy this) \<and> xy_y p \<le> xy_y (rect_xy this) + wh_h (rect_wh this)
      then True
      else False)"

text \<open>\<^verbatim>\<open>Player.updateScore()\<close>.\<close>

definition updateScore :: "Player \<Rightarrow> Player" where
  "updateScore this = this\<lparr>points := points this + 1\<rparr>"

text \<open>
  \<^verbatim>\<open>element_coords(element)\<close>: the loop adds the offsets of every element that has an
  \<^verbatim>\<open>offsetParent\<close>, walking outwards.
\<close>

fun element_coords_loop :: "real \<Rightarrow> real \<Rightarrow> HTMLElement \<Rightarrow> XY" where
  "element_coords_loop x y (HTMLElement wd ht l t None) = \<lparr>xy_x = x, xy_y = y\<rparr>"
| "element_coords_loop x y (HTMLElement wd ht l t (Some parent)) =
     element_coords_loop (x + l) (y + t) parent"

definition element_coords :: "HTMLElement \<Rightarrow> XY" where
  "element_coords el = element_coords_loop 0 0 el"

text \<open>\<^verbatim>\<open>Array.prototype.findIndex\<close>: the first index whose element satisfies the test, or -1.\<close>

fun findIndex :: "('a \<Rightarrow> bool) \<Rightarrow> 'a list \<Rightarrow> int" where
  "findIndex P [] = -1"
| "findIndex P (a # as) =
     (if P a then 0 else (let k = findIndex P as in if k < 0 then -1 else k + 1))"

text \<open>
  \<^verbatim>\<open>find_first(array, element)\<close>. The elements are objects, so \<^verbatim>\<open>==\<close> compares
  references.
\<close>

definition find_first :: "nat list \<Rightarrow> nat \<Rightarrow> int" where
  "find_first array el = findIndex (\<lambda>e. e = el) array"

text \<open>
  \<^verbatim>\<open>array.splice(start, deleteCount)\<close>, the array after the call: a negative start
  counts from the end, and both arguments are clamped to the array.
\<close>

definition Array_splice :: "'a list \<Rightarrow> int \<Rightarrow> int \<Rightarrow> 'a list" where
  "Array_splice array start deleteCount =
     (let len = int (length array);
          actualStart = (if start < 0 then max (len + start) 0 else min start len);
          actualDeleteCount = min (max deleteCount 0) (len - actualStart)
      in take (nat actualStart) array @ drop (nat (actualStart + actualDeleteCount)) array)"

text \<open>The point a click denotes on the canvas, as \<^verbatim>\<open>mouseclick\<close> computes it.\<close>

definition click_xy :: "HTMLElement \<Rightarrow> MouseEvent \<Rightarrow> XY" where
  "click_xy el e =
     (let canvasxy = element_coords el
      in \<lparr>xy_x = clientX e - xy_x canvasxy, xy_y = clientY e - xy_y canvasxy\<rparr>)"

text \<open>
  \<^verbatim>\<open>mouseclick(e)\<close>: the \<^verbatim>\<open>for\<close> loop with its three-part condition, from index
  \<open>i\<close> with the flag \<open>collided\<close>.
\<close>

function mouseclick_loop :: "MouseEvent \<Rightarrow> nat \<Rightarrow> bool \<Rightarrow> world \<Rightarrow> world" where
  "mouseclick_loop e i collided g =
     (if i < length (enemies g) \<and> \<not> collided \<and> state g then
        (let enemy = enemies g ! i;
             p = click_xy (element (canvas g)) e
         in if hasCollided (enemy_rect (heap g enemy)) p
            then mouseclick_loop e (i + 1) True
                   (g\<lparr>enemies := Array_splice (enemies g) (find_first (enemies g) enemy) 1,
                      player := updateScore (player g)\<rparr>)
            else mouseclick_loop e (i + 1) collided g)
      else g)"
  by pat_completeness auto
termination
  by (relation "measure (\<lambda>(e, i, collided, g).
        if collided then 0 else Suc (length (enemies g) - i))") auto

definition mouseclick :: "MouseEvent \<Rightarrow> world \<Rightarrow> world" where
  "mouseclick e g = mouseclick_loop e 0 False g"

text \<open>\<^verbatim>\<open>Enemy.of(ctx, rect, img)\<close>: a new object at a reference not in use.\<close>

definition Enemy_of :: "Rect \<Rightarrow> string \<Rightarrow> world \<Rightarrow> nat \<times> world" where
  "Enemy_of rect img g =
     (fresh g,
      g\<lparr>heap := (heap g)(fresh g := \<lparr>enemy_rect = rect, enemy_img = img\<rparr>),
        fresh := Suc (fresh g)\<rparr>)"

text \<open>\<^verbatim>\<open>setTimeout(timeout, d)\<close>: one more callback waits.\<close>

definition setTimeout :: "real \<Rightarrow> world \<Rightarrow> world" where
  "setTimeout d g = g\<lparr>timers := timers g @ [d]\<rparr>"

text \<open>
  \<^verbatim>\<open>timeout()\<close>. The two results of \<^verbatim>\<open>Math.random()\<close> are the arguments
  \<open>r1\<close> and \<open>r2\<close>, in the order the calls are made.
\<close>

definition timeout :: "real \<Rightarrow> real \<Rightarrow> world \<Rightarrow> world" where
  "timeout r1 r2 g =
     (let rect = \<lparr>rect_xy = \<lparr>xy_x = r1 * (Canvas_width (canvas g) - 50),
                             xy_y = r2 * (Canvas_height (canvas g) - 50)\<rparr>,
                  rect_wh = \<lparr>wh_w = 50, wh_h = 50\<rparr>\<rparr>;
          (new, g1) = Enemy_of rect ''img/enemy.png'' g;
          g2 = g1\<lparr>enemies := enemies g1 @ [new]\<rparr>;
          g3 = (if 1000 * difficulty g2 * 0.98 > 100
                then g2\<lparr>difficulty := difficulty g2 * 0.98\<rparr>
                else g2)
      in if length (enemies g3) < 20
         then setTimeout (1000 * difficulty g3) g3
         else g3\<lparr>state := False\<rparr>)"

text \<open>The delay \<^verbatim>\<open>timeout\<close> hands to \<^verbatim>\<open>setTimeout\<close>.\<close>

definition delay :: "world \<Rightarrow> real" where
  "delay g = 1000 * difficulty g"

text \<open>
  The game after \<^verbatim>\<open>new Game(new Canvas(el), [], new Player())\<close> and
  \<^verbatim>\<open>init\<close>: no enemy, no point, difficulty 1, running, and one timer waiting. The
  delay of that first timer is what the host makes of \<^verbatim>\<open>1000*this.difficulty\<close>
  under the binding of \<^verbatim>\<open>this\<close> at the load event; it is a parameter here.
\<close>

definition init :: "HTMLElement \<Rightarrow> real \<Rightarrow> world" where
  "init el first_delay =
     \<lparr>canvas = \<lparr>element = el\<rparr>, enemies = [], player = \<lparr>points = 0\<rparr>,
      difficulty = 1, state = True,
      heap = (\<lambda>_. \<lparr>enemy_rect = \<lparr>rect_xy = \<lparr>xy_x = 0, xy_y = 0\<rparr>,
                                 rect_wh = \<lparr>wh_w = 0, wh_h = 0\<rparr>\<rparr>,
                    enemy_img = []\<rparr>),
      fresh = 0, timers = [first_delay]\<rparr>"

section \<open>The host's event loop\<close>

text \<open>
  Handlers run one at a time, to completion. A tick is the firing of a waiting timer, with
  the two random numbers its run of \<^verbatim>\<open>timeout\<close> draws; without a waiting timer there
  is nothing to fire. A click runs \<^verbatim>\<open>mouseclick\<close>.
\<close>

datatype event = Tick real real | Click MouseEvent

fun step :: "event \<Rightarrow> world \<Rightarrow> world" where
  "step (Tick r1 r2) g =
     (case timers g of [] \<Rightarrow> g | d # ds \<Rightarrow> timeout r1 r2 (g\<lparr>timers := ds\<rparr>))"
| "step (Click e) g = mouseclick e g"

fun run :: "event list \<Rightarrow> world \<Rightarrow> world" where
  "run [] g = g"
| "run (ev # evs) g = run evs (step ev g)"

text \<open>\<^verbatim>\<open>Math.random()\<close> returns a number in [0, 1).\<close>

fun random_ok :: "event \<Rightarrow> bool" where
  "random_ok (Tick r1 r2) = (0 \<le> r1 \<and> r1 < 1 \<and> 0 \<le> r2 \<and> r2 < 1)"
| "random_ok (Click e) = True"

text \<open>Whether the rectangle of the enemy at a reference contains the point of a click.\<close>

definition hit :: "world \<Rightarrow> MouseEvent \<Rightarrow> nat \<Rightarrow> bool" where
  "hit g e a = hasCollided (enemy_rect (heap g a)) (click_xy (element (canvas g)) e)"

section \<open>The basic variant\<close>

text \<open>
  The second script has no Game object, no score, no difficulty and no end: its globals are
  \<^verbatim>\<open>canvas\<close> and \<^verbatim>\<open>enemies\<close>. Its classes Rect and Enemy and its functions
  \<^verbatim>\<open>element_coords\<close> and \<^verbatim>\<open>find_first\<close> are the same text as in
  \<^verbatim>\<open>script.js\<close>, so the definitions above serve both. Its Canvas keeps the DOM
  element in the field \<^verbatim>\<open>canvas\<close>.
\<close>

record Canvas_basic =
  canvas_el :: HTMLElement

record world_basic =
  canvas_basic :: Canvas_basic
  enemies_basic :: "nat list"
  heap_basic :: "nat \<Rightarrow> Enemy"
  fresh_basic :: nat

definition Canvas_basic_width :: "Canvas_basic \<Rightarrow> real" where
  "Canvas_basic_width this = el_width (canvas_el this)"

definition Canvas_basic_height :: "Canvas_basic \<Rightarrow> real" where
  "Canvas_basic_height this = el_height (canvas_el this)"

text \<open>\<^verbatim>\<open>mouseclick(e)\<close> of the basic variant: the loop condition has two parts.\<close>

function mouseclick_basic_loop :: "MouseEvent \<Rightarrow> nat \<Rightarrow> bool \<Rightarrow> world_basic \<Rightarrow> world_basic" where
  "mouseclick_basic_loop e i collided b =
     (if i < length (enemies_basic b) \<and> \<not> collided then
        (let p = click_xy (canvas_el (canvas_basic b)) e
         in if hasCollided (enemy_rect (heap_basic b (enemies_basic b ! i))) p
            then mouseclick_basic_loop e (i + 1) True
                   (b\<lparr>enemies_basic :=
                        Array_splice (enemies_basic b)
                          (find_first (enemies_basic b) (enemies_basic b ! i)) 1\<rparr>)
            else mouseclick_basic_loop e (i + 1) collided b)
      else b)"
  by pat_completeness auto
termination
  by (relation "measure (\<lambda>(e, i, collided, b).
        if collided then 0 else Suc (length (enemies_basic b) - i))") auto

definition mouseclick_basic :: "MouseEvent \<Rightarrow> world_basic \<Rightarrow> world_basic" where
  "mouseclick_basic e b = mouseclick_basic_loop e 0 False b"

text \<open>The callback of \<^verbatim>\<open>setInterval(function() {...}, 1000)\<close> in \<^verbatim>\<open>initGame\<close>.\<close>

definition spawn_basic :: "real \<Rightarrow> real \<Rightarrow> world_basic \<Rightarrow> world_basic" where
  "spawn_basic r1 r2 b =
     (let rect = \<lparr>rect_xy = \<lparr>xy_x = r1 * (Canvas_basic_width (canvas_basic b) - 50),
                             xy_y = r2 * (Canvas_basic_height (canvas_basic b) - 50)\<rparr>,
                  rect_wh = \<lparr>wh_w = 50, wh_h = 50\<rparr>\<rparr>;
          new = fresh_basic b;
          b1 = b\<lparr>heap_basic := (heap_basic b)(new := \<lparr>enemy_rect = rect, enemy_img = ''img/enemy.png''\<rparr>),
                 fresh_basic := Suc new\<rparr>
      in b1\<lparr>enemies_basic := enemies_basic b1 @ [new]\<rparr>)"

text \<open>What the basic variant has of a world of the full game.\<close>

definition basic_of :: "world \<Rightarrow> world_basic" where
  "basic_of g =
     \<lparr>canvas_basic = \<lparr>canvas_el = element (canvas g)\<rparr>, enemies_basic = enemies g,
      heap_basic = heap g, fresh_basic = fresh g\<rparr>"

section \<open>Concrete games\<close>

text \<open>A canvas of 500 by 500 at the top left corner of the page.\<close>

definition canvas500 :: HTMLElement where
  "canvas500 = HTMLElement 500 500 0 0 None"

definition enemy_at :: "real \<Rightarrow> real \<Rightarrow> Enemy" where
  "enemy_at x y =
     \<lparr>enemy_rect = \<lparr>rect_xy = \<lparr>xy_x = x, xy_y = y\<rparr>, rect_wh = \<lparr>wh_w = 50, wh_h = 50\<rparr>\<rparr>,
      enemy_img = ''img/enemy.png''\<rparr>"

text \<open>
  Three live enemies, spawned in the order 0, 1, 2: the first at (300, 300), the other two
  overlapping at (100, 100) and (120, 120).
\<close>

definition three_enemies :: world where
  "three_enemies =
     (init canvas500 1000)
       \<lparr>enemies := [0, 1, 2],
        heap := (heap (init canvas500 1000))
                  (0 := enemy_at 300 300, 1 := enemy_at 100 100, 2 := enemy_at 120 120),
        fresh := 3\<rparr>"

text \<open>The same game after its end, and a game one enemy short of the end.\<close>

definition three_enemies_over :: world where
  "three_enemies_over = three_enemies\<lparr>state := False, timers := []\<rparr>"

definition nineteen_enemies :: world where
  "nineteen_enemies = (init canvas500 1000)\<lparr>enemies := [0..<19], fresh := 19, timers := []\<rparr>"

definition click_at :: "real \<Rightarrow> real \<Rightarrow> MouseEvent" where
  "click_at x y = \<lparr>clientX = x, clientY = y\<rparr>"

text \<open>A game whose delay is 102: one more decay would take it to 99.96.\<close>

definition near_floor :: world where
  "near_floor = three_enemies\<lparr>difficulty := 0.102\<rparr>"

text \<open>
  Two ticks, then a click on the first enemy spawned, which the first tick puts at
  (225, 112.5).
\<close>

definition two_ticks :: "event list" where
  "two_ticks = [Tick (1/2) (1/4), Tick 0 (9/10), Click (click_at 230 120)]"

section \<open>Rectangles inside the canvas\<close>

text \<open>A rectangle of 50 by 50 that lies inside the canvas.\<close>

definition fits :: "Canvas \<Rightarrow> Rect \<Rightarrow> bool" where
  "fits c r =
     (0 \<le> xy_x (rect_xy r) \<and> xy_x (rect_xy r) \<le> Canvas_width c - 50 \<and>
      0 \<le> xy_y (rect_xy r) \<and> xy_y (rect_xy r) \<le> Canvas_height c - 50 \<and>
      wh_w (rect_wh r) = 50 \<and> wh_h (rect_wh r) = 50)"

section \<open>The scheduler's invariant\<close>

text \<open>
  At most one timer waits; while one waits the game runs with fewer than 20 enemies, and
  with none waiting there are at most 20.
\<close>

definition sched_ok :: "world \<Rightarrow> bool" where
  "sched_ok g =
     (case timers g of
        [] \<Rightarrow> length (enemies g) \<le> 20
      | [d] \<Rightarrow> length (enemies g) < 20 \<and> state g
      | _ \<Rightarrow> False)"

text \<open>Twenty ticks in a row, with no click in between.\<close>

definition twenty_ticks :: "event list" where
  "twenty_ticks = replicate 20 (Tick (1/2) (1/4))"

section \<open>Arrays\<close>

lemma findIndex_found:
  "i < length xs \<Longrightarrow> P (xs ! i) \<Longrightarrow>
     0 \<le> findIndex P xs \<and> findIndex P xs \<le> int i \<and> P (xs ! nat (findIndex P xs))"
proof (induction xs arbitrary: i)
  case Nil
  then show ?case by simp
next
  case (Cons a as)
  show ?case
  proof (cases "P a")
    case True
    then show ?thesis by simp
  next
    case False
    with Cons.prems obtain k where k: "i = Suc k" by (cases i) auto
    with Cons.prems
    have "0 \<le> findIndex P as \<and> findIndex P as \<le> int k \<and> P (as ! nat (findIndex P as))"
      by (intro Cons.IH) auto
    with False k show ?thesis by (simp add: Let_def nat_add_distrib)
  qed
qed

lemma splice_one:
  "i < length xs \<Longrightarrow> Array_splice xs (int i) 1 = take i xs @ drop (Suc i) xs"
  by (simp add: Array_splice_def Let_def min_def max_def nat_add_distrib)

lemma first_hit_ex:
  assumes "\<exists>a\<in>set xs. P a"
  shows "\<exists>j<length xs. P (xs ! j) \<and> (\<forall>k<j. \<not> P (xs ! k))"
proof -
  from assms obtain i where i: "i < length xs" "P (xs ! i)"
    by (auto simp: in_set_conv_nth)
  define j where "j = (LEAST n. n < length xs \<and> P (xs ! n))"
  from i have j: "j < length xs \<and> P (xs ! j)"
    unfolding j_def by (intro LeastI [of "\<lambda>n. n < length xs \<and> P (xs ! n)" i]) simp
  moreover have "\<not> P (xs ! k)" if "k < j" for k
  proof
    assume "P (xs ! k)"
    moreover from that j have "k < length xs" by simp
    ultimately have "j \<le> k" unfolding j_def by (intro Least_le) simp
    with that show False by simp
  qed
  ultimately show ?thesis by blast
qed

section \<open>The click loop\<close>

declare mouseclick_loop.simps [simp del]
declare mouseclick_basic_loop.simps [simp del]

lemma loop_exit:
  "\<not> (i < length (enemies g) \<and> \<not> collided \<and> state g) \<Longrightarrow> mouseclick_loop e i collided g = g"
  by (subst mouseclick_loop.simps) (erule if_not_P)

lemma loop_miss:
  "(\<forall>j. i \<le> j \<and> j < length (enemies g) \<longrightarrow> \<not> hit g e (enemies g ! j)) \<Longrightarrow>
     mouseclick_loop e i False g = g"
proof (induction "length (enemies g) - i" arbitrary: i)
  case 0
  then show ?case by (simp add: loop_exit)
next
  case (Suc n)
  then have lt: "i < length (enemies g)" by simp
  from Suc.prems lt have nh: "\<not> hit g e (enemies g ! i)" by simp
  have "mouseclick_loop e (Suc i) False g = g"
    using Suc.hyps(2) Suc.prems by (intro Suc.hyps(1)) auto
  with nh show ?case
    by (subst mouseclick_loop.simps) (simp add: hit_def Let_def)
qed

lemma loop_hit:
  "state g \<Longrightarrow> i \<le> j \<Longrightarrow> j < length (enemies g) \<Longrightarrow> hit g e (enemies g ! j) \<Longrightarrow>
   (\<forall>k. i \<le> k \<and> k < j \<longrightarrow> \<not> hit g e (enemies g ! k)) \<Longrightarrow>
     mouseclick_loop e i False g =
       g\<lparr>enemies := Array_splice (enemies g) (find_first (enemies g) (enemies g ! j)) 1,
         player := updateScore (player g)\<rparr>"
proof (induction "j - i" arbitrary: i)
  case 0
  then have ij: "i = j" by simp
  with 0 show ?case
    by (subst mouseclick_loop.simps) (simp add: hit_def Let_def loop_exit)
next
  case (Suc n)
  then have lt: "i < j" by simp
  with Suc.prems have nh: "\<not> hit g e (enemies g ! i)" by simp
  have "mouseclick_loop e (Suc i) False g =
       g\<lparr>enemies := Array_splice (enemies g) (find_first (enemies g) (enemies g ! j)) 1,
         player := updateScore (player g)\<rparr>"
    using Suc.hyps(2) Suc.prems lt by (intro Suc.hyps(1)) auto
  with nh lt Suc.prems show ?case
    by (subst mouseclick_loop.simps) (simp add: hit_def Let_def)
qed

text \<open>
  The enemy the loop stops at is the first one hit, so \<^verbatim>\<open>find_first\<close> returns the
  loop's own index: an earlier entry with the same reference is the same object and would
  have been hit before.
\<close>

lemma find_first_hit:
  assumes "j < length (enemies g)" "hit g e (enemies g ! j)"
    and "\<forall>k<j. \<not> hit g e (enemies g ! k)"
  shows "find_first (enemies g) (enemies g ! j) = int j"
proof -
  let ?P = "\<lambda>a. a = enemies g ! j"
  from findIndex_found [of j "enemies g" ?P] assms(1)
  have b: "0 \<le> findIndex ?P (enemies g)" "findIndex ?P (enemies g) \<le> int j"
    and eq: "enemies g ! nat (findIndex ?P (enemies g)) = enemies g ! j"
    by auto
  from eq assms(2) have "hit g e (enemies g ! nat (findIndex ?P (enemies g)))" by simp
  with assms(3) have "\<not> nat (findIndex ?P (enemies g)) < j" by blast
  with b show ?thesis by (simp add: find_first_def)
qed

lemma mouseclick_hit:
  assumes "state g" "j < length (enemies g)" "hit g e (enemies g ! j)"
    and "\<forall>k<j. \<not> hit g e (enemies g ! k)"
  shows "mouseclick e g =
           g\<lparr>enemies := take j (enemies g) @ drop (Suc j) (enemies g),
             player := updateScore (player g)\<rparr>"
proof -
  have "mouseclick e g =
       g\<lparr>enemies := Array_splice (enemies g) (find_first (enemies g) (enemies g ! j)) 1,
         player := updateScore (player g)\<rparr>"
    unfolding mouseclick_def using assms by (intro loop_hit) auto
  with assms show ?thesis by (simp add: find_first_hit splice_one)
qed

lemma mouseclick_miss:
  "(\<forall>a\<in>set (enemies g). \<not> hit g e a) \<Longrightarrow> mouseclick e g = g"
  unfolding mouseclick_def by (rule loop_miss) simp

lemma mouseclick_stopped: "\<not> state g \<Longrightarrow> mouseclick e g = g"
  unfolding mouseclick_def by (rule loop_exit) simp

text \<open>A click either changes nothing or removes the first enemy hit and scores.\<close>

lemma mouseclick_cases:
  obtains (ignored) "mouseclick e g = g"
  | (removed) j where "state g" "j < length (enemies g)" "hit g e (enemies g ! j)"
      "\<forall>k<j. \<not> hit g e (enemies g ! k)"
      "mouseclick e g =
         g\<lparr>enemies := take j (enemies g) @ drop (Suc j) (enemies g),
           player := updateScore (player g)\<rparr>"
proof (cases "state g \<and> (\<exists>a\<in>set (enemies g). hit g e a)")
  case True
  then obtain j where j: "j < length (enemies g)" "hit g e (enemies g ! j)"
      "\<forall>k<j. \<not> hit g e (enemies g ! k)"
    using first_hit_ex [of "enemies g" "hit g e"] by blast
  with True show ?thesis by (intro removed [of j] mouseclick_hit) auto
next
  case False
  then show ?thesis by (intro ignored) (auto simp: mouseclick_stopped mouseclick_miss)
qed

lemma takeWhile_first:
  "j < length xs \<Longrightarrow> P (xs ! j) \<Longrightarrow> \<forall>k<j. \<not> P (xs ! k) \<Longrightarrow>
     takeWhile (\<lambda>a. \<not> P a) xs = take j xs \<and> dropWhile (\<lambda>a. \<not> P a) xs = drop j xs"
proof (induction xs arbitrary: j)
  case Nil
  then show ?case by simp
next
  case (Cons a as)
  show ?case
  proof (cases j)
    case 0
    with Cons.prems show ?thesis by simp
  next
    case (Suc n)
    with Cons.prems have na: "\<not> P a" by auto
    from Suc Cons.prems
    have "takeWhile (\<lambda>a. \<not> P a) as = take n as \<and> dropWhile (\<lambda>a. \<not> P a) as = drop n as"
      by (intro Cons.IH) auto
    with na Suc show ?thesis by simp
  qed
qed

section \<open>What a tick and a click change\<close>

lemma timeout_enemies: "enemies (timeout r1 r2 g) = enemies g @ [fresh g]"
  by (simp add: timeout_def Enemy_of_def setTimeout_def Let_def)

lemma timeout_state: "state (timeout r1 r2 g) = (state g \<and> Suc (length (enemies g)) < 20)"
  by (simp add: timeout_def Enemy_of_def setTimeout_def Let_def)

lemma timeout_difficulty:
  "difficulty (timeout r1 r2 g) =
     (if 1000 * difficulty g * 0.98 > 100 then difficulty g * 0.98 else difficulty g)"
  by (simp add: timeout_def Enemy_of_def setTimeout_def Let_def)

lemma timeout_timers:
  "timers (timeout r1 r2 g) =
     (if Suc (length (enemies g)) < 20
      then timers g @ [1000 * difficulty (timeout r1 r2 g)] else timers g)"
  by (simp add: timeout_def Enemy_of_def setTimeout_def Let_def)

lemma timeout_heap:
  "heap (timeout r1 r2 g) =
     (heap g)(fresh g :=
        \<lparr>enemy_rect = \<lparr>rect_xy = \<lparr>xy_x = r1 * (el_width (element (canvas g)) - 50),
                                   xy_y = r2 * (el_height (element (canvas g)) - 50)\<rparr>,
                        rect_wh = \<lparr>wh_w = 50, wh_h = 50\<rparr>\<rparr>,
         enemy_img = ''img/enemy.png''\<rparr>)"
  by (simp add: timeout_def Enemy_of_def setTimeout_def Let_def Canvas_width_def Canvas_height_def)

lemma timeout_fresh: "fresh (timeout r1 r2 g) = Suc (fresh g)"
  by (simp add: timeout_def Enemy_of_def setTimeout_def Let_def)

lemma timeout_canvas: "canvas (timeout r1 r2 g) = canvas g"
  by (simp add: timeout_def Enemy_of_def setTimeout_def Let_def)

lemma timeout_player: "player (timeout r1 r2 g) = player g"
  by (simp add: timeout_def Enemy_of_def setTimeout_def Let_def)

lemma click_state: "state (mouseclick e g) = state g"
  by (cases e g rule: mouseclick_cases) auto

lemma click_difficulty: "difficulty (mouseclick e g) = difficulty g"
  by (cases e g rule: mouseclick_cases) auto

lemma click_timers: "timers (mouseclick e g) = timers g"
  by (cases e g rule: mouseclick_cases) auto

lemma click_heap: "heap (mouseclick e g) = heap g"
  by (cases e g rule: mouseclick_cases) auto

lemma click_fresh: "fresh (mouseclick e g) = fresh g"
  by (cases e g rule: mouseclick_cases) auto

lemma click_canvas: "canvas (mouseclick e g) = canvas g"
  by (cases e g rule: mouseclick_cases) auto

lemma click_length: "length (enemies (mouseclick e g)) \<le> length (enemies g)"
  by (cases e g rule: mouseclick_cases) auto

lemma click_set: "set (enemies (mouseclick e g)) \<subseteq> set (enemies g)"
proof (cases e g rule: mouseclick_cases)
  case ignored
  then show ?thesis by simp
next
  case (removed j)
  have "set (take j (enemies g) @ drop (Suc j) (enemies g)) \<subseteq> set (enemies g)"
    using set_take_subset [of j "enemies g"] set_drop_subset [of "Suc j" "enemies g"] by auto
  with removed(5) show ?thesis by simp
qed

lemma step_state: "\<not> state g \<Longrightarrow> \<not> state (step ev g)"
  by (cases ev) (auto simp: timeout_state click_state split: list.splits)

lemma run_state: "\<not> state g \<Longrightarrow> \<not> state (run evs g)"
  by (induction evs arbitrary: g) (auto simp: step_state)

lemma step_sched_ok: "sched_ok g \<Longrightarrow> sched_ok (step ev g)"
proof (cases ev)
  case (Tick r1 r2)
  assume "sched_ok g"
  then show ?thesis
    unfolding Tick sched_ok_def
    by (auto simp: timeout_enemies timeout_state timeout_timers split: list.splits)
next
  case (Click e)
  assume "sched_ok g"
  then show ?thesis
    using click_length [of e g] unfolding Click sched_ok_def
    by (auto simp: click_timers click_state split: list.splits)
qed

lemma run_sched_ok: "sched_ok g \<Longrightarrow> sched_ok (run evs g)"
  by (induction evs arbitrary: g) (auto simp: step_sched_ok)

lemma init_sched_ok: "sched_ok (init el d)"
  by (simp add: sched_ok_def init_def)

lemma sched_ok_length: "sched_ok g \<Longrightarrow> length (enemies g) \<le> 20"
  by (auto simp: sched_ok_def split: list.splits)




section \<open>Evaluating the concrete games\<close>

lemmas concrete_defs = three_enemies_def three_enemies_over_def nineteen_enemies_def init_def
  canvas500_def enemy_at_def click_at_def hit_def hasCollided_def click_xy_def element_coords_def


lemma twenty_ticks_length: "length (enemies (run twenty_ticks (init canvas500 1000))) = 20"
  by (simp add: twenty_ticks_def eval_nat_numeral init_def timeout_state timeout_enemies timeout_timers)

lemmas run_defs = init_def timeout_def Enemy_of_def setTimeout_def Let_def
  mouseclick_def mouseclick_loop.simps click_at_def canvas500_def Canvas_width_def
  Canvas_height_def hasCollided_def click_xy_def element_coords_def find_first_def
  Array_splice_def updateScore_def

lemma two_ticks_enemies: "enemies (run two_ticks (init canvas500 1000)) = [1]"
  by (simp add: two_ticks_def run_defs)

lemma two_ticks_heap:
  "enemy_rect (heap (run two_ticks (init canvas500 1000)) 1) =
     \<lparr>rect_xy = \<lparr>xy_x = 0, xy_y = 405\<rparr>, rect_wh = \<lparr>wh_w = 50, wh_h = 50\<rparr>\<rparr>"
  by (simp add: two_ticks_def run_defs)

section \<open>The delay\<close>

lemma delay_timeout:
  "delay (timeout r1 r2 g) = (if delay g * 0.98 > 100 then delay g * 0.98 else delay g)"
  by (simp add: delay_def timeout_difficulty)

lemma delay_click: "delay (mouseclick e g) = delay g"
  by (simp add: delay_def click_difficulty)

lemma delay_step:
  "delay (step ev g) = delay g \<or>
   delay (step ev g) = delay g * 0.98 \<and> 100 < delay g * 0.98"
proof (cases ev)
  case (Tick r1 r2)
  show ?thesis
  proof (cases "timers g")
    case Nil
    with Tick show ?thesis by simp
  next
    case (Cons d ds)
    have "delay (g\<lparr>timers := ds\<rparr>) = delay g" by (simp add: delay_def)
    with Tick Cons show ?thesis by (simp add: delay_timeout)
  qed
next
  case (Click e)
  then show ?thesis by (simp add: delay_click)
qed

lemma delay_step_le: "delay (step ev g) \<le> delay g"
  using delay_step [of ev g] by auto

lemma delay_step_above: "100 < delay g \<Longrightarrow> 100 < delay (step ev g)"
  using delay_step [of ev g] by auto

lemma delay_step_floor: "delay g * 0.98 \<le> 100 \<Longrightarrow> delay (step ev g) = delay g"
  using delay_step [of ev g] by auto

lemma delay_run_le: "delay (run evs g) \<le> delay g"
proof (induction evs arbitrary: g)
  case Nil
  show ?case by simp
next
  case (Cons ev evs)
  have "delay (run evs (step ev g)) \<le> delay (step ev g)" by (rule Cons.IH)
  also have "\<dots> \<le> delay g" by (rule delay_step_le)
  finally show ?case by simp
qed

lemma delay_run_above: "100 < delay g \<Longrightarrow> 100 < delay (run evs g)"
  by (induction evs arbitrary: g) (auto simp: delay_step_above)

lemma delay_run_floor: "delay g * 0.98 \<le> 100 \<Longrightarrow> delay (run evs g) = delay g"
  by (induction evs arbitrary: g) (auto simp: delay_step_floor)

section \<open>Where enemies spawn\<close>

lemma fits_new:
  fixes W H r1 r2 :: real
  assumes "50 \<le> W" "50 \<le> H" "0 \<le> r1" "r1 < 1" "0 \<le> r2" "r2 < 1"
  shows "0 \<le> r1 * (W - 50) \<and> r1 * (W - 50) \<le> W - 50 \<and>
         0 \<le> r2 * (H - 50) \<and> r2 * (H - 50) \<le> H - 50"
proof -
  from assms have w: "0 \<le> W - 50" and h: "0 \<le> H - 50" by simp_all
  from assms w have "r1 * (W - 50) \<le> 1 * (W - 50)" by (intro mult_right_mono) simp_all
  moreover from assms h have "r2 * (H - 50) \<le> 1 * (H - 50)" by (intro mult_right_mono) simp_all
  ultimately show ?thesis using assms w h by simp
qed

lemma step_fits:
  assumes "50 \<le> el_width (element (canvas g))" "50 \<le> el_height (element (canvas g))"
    and "random_ok ev"
    and "\<forall>a\<in>set (enemies g). a < fresh g \<and> fits (canvas g) (enemy_rect (heap g a))"
  shows "canvas (step ev g) = canvas g \<and>
         (\<forall>a\<in>set (enemies (step ev g)).
            a < fresh (step ev g) \<and> fits (canvas g) (enemy_rect (heap (step ev g) a)))"
proof (cases ev)
  case (Click e)
  with assms(4) click_set [of e g] show ?thesis
    by (auto simp: click_canvas click_fresh click_heap)
next
  case (Tick r1 r2)
  show ?thesis
  proof (cases "timers g")
    case Nil
    with Tick assms(4) show ?thesis by simp
  next
    case (Cons d ds)
    from assms(3) Tick have r: "0 \<le> r1" "r1 < 1" "0 \<le> r2" "r2 < 1" by simp_all
    note n = fits_new [OF assms(1,2) r]
    from Tick Cons have s: "step ev g = timeout r1 r2 (g\<lparr>timers := ds\<rparr>)" by simp
    show ?thesis
      unfolding s using assms(4) n
      by (auto simp: timeout_canvas timeout_enemies timeout_fresh timeout_heap fits_def
          Canvas_width_def Canvas_height_def)
  qed
qed

lemma run_fits:
  assumes "50 \<le> el_width (element (canvas g))" "50 \<le> el_height (element (canvas g))"
    and "list_all random_ok evs"
    and "\<forall>a\<in>set (enemies g). a < fresh g \<and> fits (canvas g) (enemy_rect (heap g a))"
  shows "canvas (run evs g) = canvas g \<and>
         (\<forall>a\<in>set (enemies (run evs g)).
            a < fresh (run evs g) \<and> fits (canvas g) (enemy_rect (heap (run evs g) a)))"
  using assms
proof (induction evs arbitrary: g)
  case Nil
  then show ?case by simp
next
  case (Cons ev evs)
  from Cons.prems have s: "canvas (step ev g) = canvas g \<and>
         (\<forall>a\<in>set (enemies (step ev g)).
            a < fresh (step ev g) \<and> fits (canvas g) (enemy_rect (heap (step ev g) a)))"
    by (intro step_fits) simp_all
  then have c: "canvas (step ev g) = canvas g" by simp
  have "canvas (run evs (step ev g)) = canvas (step ev g) \<and>
         (\<forall>a\<in>set (enemies (run evs (step ev g))).
            a < fresh (run evs (step ev g)) \<and>
            fits (canvas (step ev g)) (enemy_rect (heap (run evs (step ev g)) a)))"
    using Cons.prems s by (intro Cons.IH) (simp_all add: c)
  then show ?case by (simp add: c)
qed

section \<open>The two variants\<close>

lemma basic_loop_exit:
  "\<not> (i < length (enemies_basic b) \<and> \<not> collided) \<Longrightarrow> mouseclick_basic_loop e i collided b = b"
  by (subst mouseclick_basic_loop.simps) (erule if_not_P)

lemma basic_loop_agrees:
  "state g \<Longrightarrow>
     mouseclick_basic_loop e i False (basic_of g) = basic_of (mouseclick_loop e i False g)"
proof (induction "length (enemies g) - i" arbitrary: i)
  case 0
  then have "\<not> i < length (enemies g)" by simp
  then show ?case by (simp add: loop_exit basic_loop_exit basic_of_def)
next
  case (Suc n)
  then have lt: "i < length (enemies g)" by simp
  show ?case
  proof (cases "hit g e (enemies g ! i)")
    case True
    let ?es = "Array_splice (enemies g) (find_first (enemies g) (enemies g ! i)) 1"
    have "mouseclick_loop e i False g =
            g\<lparr>enemies := ?es, player := updateScore (player g)\<rparr>"
      using True lt Suc.prems
      by (subst mouseclick_loop.simps) (simp add: hit_def Let_def loop_exit)
    moreover have "mouseclick_basic_loop e i False (basic_of g) =
            (basic_of g)\<lparr>enemies_basic := ?es\<rparr>"
      using True lt
      by (subst mouseclick_basic_loop.simps)
        (simp add: hit_def Let_def basic_loop_exit basic_of_def)
    ultimately show ?thesis by (simp add: basic_of_def)
  next
    case False
    have ih: "mouseclick_basic_loop e (Suc i) False (basic_of g) =
                basic_of (mouseclick_loop e (Suc i) False g)"
      using Suc.hyps(2) Suc.prems by (intro Suc.hyps(1)) auto
    have "mouseclick_loop e i False g = mouseclick_loop e (Suc i) False g"
      using False lt Suc.prems by (subst mouseclick_loop.simps) (simp add: hit_def Let_def)
    moreover have "mouseclick_basic_loop e i False (basic_of g) =
                     mouseclick_basic_loop e (Suc i) False (basic_of g)"
      using False lt
      by (subst mouseclick_basic_loop.simps) (simp add: hit_def Let_def basic_of_def)
    ultimately show ?thesis using ih by simp
  qed
qed

lemma spawn_basic_agrees: "spawn_basic r1 r2 (basic_of g) = basic_of (timeout r1 r2 g)"
  by (simp add: spawn_basic_def basic_of_def timeout_def Enemy_of_def setTimeout_def Let_def
      Canvas_width_def Canvas_height_def Canvas_basic_width_def Canvas_basic_height_def)

section \<open>The hit test\<close>

text \<open>
  C4. \<^verbatim>\<open>hasCollided\<close> is the inclusive test on both ends of both axes: a point is a hit
  exactly when \<open>rectX \<le> x \<le> rectX + rectW\<close> and \<open>rectY \<le> y \<le> rectY + rectH\<close>. For a
  rectangle of non-negative size, as the data model has it, the corner \<open>(rectX, rectY)\<close>
  and the opposite corner are hits; \<open>(rectX - 1, rectY)\<close> never is.
\<close>

theorem hasCollided_inclusive:
  "hasCollided r p =
     (xy_x (rect_xy r) \<le> xy_x p \<and> xy_x p \<le> xy_x (rect_xy r) + wh_w (rect_wh r) \<and>
      xy_y (rect_xy r) \<le> xy_y p \<and> xy_y p \<le> xy_y (rect_xy r) + wh_h (rect_wh r))
   \<and> (0 \<le> wh_w (rect_wh r) \<and> 0 \<le> wh_h (rect_wh r) \<longrightarrow>
        hasCollided r (rect_xy r) \<and>
        hasCollided r \<lparr>xy_x = xy_x (rect_xy r) + wh_w (rect_wh r),
                       xy_y = xy_y (rect_xy r) + wh_h (rect_wh r)\<rparr>)
   \<and> \<not> hasCollided r \<lparr>xy_x = xy_x (rect_xy r) - 1, xy_y = xy_y (rect_xy r)\<rparr>"
  by (simp add: hasCollided_def)

theorem hasCollided_inclusive_witness:
  "(0::real) \<le> 50 \<and>
   hasCollided (enemy_rect (enemy_at 100 100)) \<lparr>xy_x = 100, xy_y = 100\<rparr> \<and>
   hasCollided (enemy_rect (enemy_at 100 100)) \<lparr>xy_x = 150, xy_y = 150\<rparr> \<and>
   \<not> hasCollided (enemy_rect (enemy_at 100 100)) \<lparr>xy_x = 99, xy_y = 100\<rparr>"
  using hasCollided_inclusive [of "enemy_rect (enemy_at 100 100)" "\<lparr>xy_x = 100, xy_y = 100\<rparr>"]
  by (simp add: enemy_at_def)

text \<open>
  C3. A click on a running game removes at most one enemy: the first one in the array, that
  is in spawn order, whose rectangle contains the point. The enemies before it and after it
  stay, in their order. With several rectangles over the point, the oldest goes.
\<close>

theorem click_removes_first_hit:
  assumes "state g"
  shows "enemies (mouseclick e g) =
           takeWhile (\<lambda>a. \<not> hit g e a) (enemies g) @ tl (dropWhile (\<lambda>a. \<not> hit g e a) (enemies g))
       \<and> (\<forall>j<length (enemies g).
            hit g e (enemies g ! j) \<and> (\<forall>k<j. \<not> hit g e (enemies g ! k)) \<longrightarrow>
            enemies (mouseclick e g) = take j (enemies g) @ drop (Suc j) (enemies g))
       \<and> length (enemies g) \<le> Suc (length (enemies (mouseclick e g)))"
proof (intro conjI allI impI)
  fix j
  assume "j < length (enemies g)"
    and "hit g e (enemies g ! j) \<and> (\<forall>k<j. \<not> hit g e (enemies g ! k))"
  then show "enemies (mouseclick e g) = take j (enemies g) @ drop (Suc j) (enemies g)"
    using mouseclick_hit [OF assms, of j e] by simp
next
  show "enemies (mouseclick e g) =
           takeWhile (\<lambda>a. \<not> hit g e a) (enemies g) @ tl (dropWhile (\<lambda>a. \<not> hit g e a) (enemies g))"
  proof (cases "\<exists>a\<in>set (enemies g). hit g e a")
    case True
    then obtain j where j: "j < length (enemies g)" "hit g e (enemies g ! j)"
        "\<forall>k<j. \<not> hit g e (enemies g ! k)"
      using first_hit_ex [of "enemies g" "hit g e"] by blast
    from takeWhile_first [OF j] mouseclick_hit [OF assms j] show ?thesis
      by (simp add: drop_Suc tl_drop)
  next
    case False
    then have m: "mouseclick e g = g" by (intro mouseclick_miss) simp
    from False have tw: "takeWhile (\<lambda>a. \<not> hit g e a) (enemies g) = enemies g"
      by (intro takeWhile_eq_all_conv [THEN iffD2]) simp
    from False have dw: "dropWhile (\<lambda>a. \<not> hit g e a) (enemies g) = []"
      by (intro dropWhile_eq_Nil_conv [THEN iffD2]) simp
    show ?thesis by (simp add: m tw dw)
  qed
next
  show "length (enemies g) \<le> Suc (length (enemies (mouseclick e g)))"
    by (cases e g rule: mouseclick_cases) auto
qed

theorem click_removes_first_hit_witness:
  "state three_enemies \<and>
   hit three_enemies (click_at 125 125) 1 \<and> hit three_enemies (click_at 125 125) 2 \<and>
   \<not> hit three_enemies (click_at 125 125) 0 \<and>
   enemies (mouseclick (click_at 125 125) three_enemies) = [0, 2]"
proof -
  have s: "state three_enemies" by (simp add: concrete_defs)
  have h: "hit three_enemies (click_at 125 125) 1" "hit three_enemies (click_at 125 125) 2"
    "\<not> hit three_enemies (click_at 125 125) 0"
    by (simp_all add: concrete_defs)
  have en: "enemies three_enemies = [0, 1, 2]" by (simp add: concrete_defs)
  from click_removes_first_hit [OF s, of "click_at 125 125"] h en s show ?thesis by simp
qed

text \<open>
  C5. A click on a running game: when some live enemy's rectangle contains the point, the
  number of enemies goes down by exactly one and the score up by exactly one, and the
  difficulty and the running flag keep their values; when none does, the whole world is
  unchanged.
\<close>

theorem click_frame:
  assumes "state g"
  shows "((\<exists>a\<in>set (enemies g). hit g e a) \<longrightarrow>
            Suc (length (enemies (mouseclick e g))) = length (enemies g) \<and>
            points (player (mouseclick e g)) = points (player g) + 1 \<and>
            difficulty (mouseclick e g) = difficulty g \<and>
            state (mouseclick e g) = state g)
       \<and> ((\<forall>a\<in>set (enemies g). \<not> hit g e a) \<longrightarrow> mouseclick e g = g)"
proof (intro conjI impI)
  assume "\<forall>a\<in>set (enemies g). \<not> hit g e a"
  then show "mouseclick e g = g" by (rule mouseclick_miss)
next
  assume "\<exists>a\<in>set (enemies g). hit g e a"
  then obtain j where j: "j < length (enemies g)" "hit g e (enemies g ! j)"
      "\<forall>k<j. \<not> hit g e (enemies g ! k)"
    using first_hit_ex [of "enemies g" "hit g e"] by blast
  note eq = mouseclick_hit [OF assms j]
  from j(1) show "Suc (length (enemies (mouseclick e g))) = length (enemies g)"
    by (simp add: eq)
  show "points (player (mouseclick e g)) = points (player g) + 1"
    by (simp add: eq updateScore_def)
  show "difficulty (mouseclick e g) = difficulty g" by (simp add: eq)
  show "state (mouseclick e g) = state g" by (simp add: eq)
qed

theorem click_frame_witness:
  "state three_enemies \<and> hit three_enemies (click_at 125 125) 1 \<and>
   length (enemies three_enemies) = 3 \<and>
   length (enemies (mouseclick (click_at 125 125) three_enemies)) = 2 \<and>
   points (player three_enemies) = 0 \<and>
   points (player (mouseclick (click_at 125 125) three_enemies)) = 1 \<and>
   difficulty (mouseclick (click_at 125 125) three_enemies) = 1 \<and>
   state (mouseclick (click_at 125 125) three_enemies) \<and>
   \<not> hit three_enemies (click_at 0 0) 0 \<and> \<not> hit three_enemies (click_at 0 0) 1 \<and>
   \<not> hit three_enemies (click_at 0 0) 2 \<and>
   mouseclick (click_at 0 0) three_enemies = three_enemies"
proof -
  have s: "state three_enemies" by (simp add: concrete_defs)
  have h: "hit three_enemies (click_at 125 125) 1" by (simp add: concrete_defs)
  have m: "\<not> hit three_enemies (click_at 0 0) 0" "\<not> hit three_enemies (click_at 0 0) 1"
    "\<not> hit three_enemies (click_at 0 0) 2"
    by (simp_all add: concrete_defs)
  have l: "enemies three_enemies = [0, 1, 2]" "points (player three_enemies) = 0"
    "difficulty three_enemies = 1"
    by (simp_all add: concrete_defs)
  from s h m l click_frame [OF s, of "click_at 125 125"] click_frame [OF s, of "click_at 0 0"]
  show ?thesis by simp
qed

text \<open>
  C8. A click on a game that is not running changes nothing at all, whatever the point and
  whatever lies under it.
\<close>

theorem click_when_stopped_ignored: "\<not> state g \<Longrightarrow> mouseclick e g = g"
  by (rule mouseclick_stopped)

theorem click_when_stopped_ignored_witness:
  "\<not> state three_enemies_over \<and> hit three_enemies_over (click_at 125 125) 1 \<and>
   mouseclick (click_at 125 125) three_enemies_over = three_enemies_over"
proof -
  have s: "\<not> state three_enemies_over" by (simp add: concrete_defs)
  have h: "hit three_enemies_over (click_at 125 125) 1" by (simp add: concrete_defs)
  from s h click_when_stopped_ignored [OF s, of "click_at 125 125"] show ?thesis by simp
qed

section \<open>The end of the game\<close>

text \<open>
  C1. A tick that brings the number of live enemies to 20 (or finds it there already) sets
  the running flag to false and schedules nothing. From then on the flag stays false: no
  run of \<^verbatim>\<open>timeout\<close>, no click and no sequence of events sets it back to true.
\<close>

theorem game_over_is_final:
  "(19 \<le> length (enemies g) \<longrightarrow>
      \<not> state (timeout r1 r2 g) \<and> timers (timeout r1 r2 g) = timers g)
   \<and> (\<not> state g \<longrightarrow>
        \<not> state (timeout r1 r2 g) \<and> \<not> state (mouseclick e g) \<and> \<not> state (step ev g)
        \<and> \<not> state (run evs g))"
  by (simp add: timeout_state timeout_timers click_state step_state run_state)

theorem game_over_is_final_witness:
  "state nineteen_enemies \<and> length (enemies nineteen_enemies) = 19 \<and>
   \<not> state (timeout 0 0 nineteen_enemies) \<and>
   timers (timeout 0 0 nineteen_enemies) = timers nineteen_enemies \<and>
   \<not> state (timeout 0 0 (timeout 0 0 nineteen_enemies)) \<and>
   \<not> state (mouseclick (click_at 125 125) (timeout 0 0 nineteen_enemies)) \<and>
   \<not> state (run [Tick 0 0, Click (click_at 125 125), Tick 0 0] (timeout 0 0 nineteen_enemies))"
proof -
  have s: "state nineteen_enemies" and l: "length (enemies nineteen_enemies) = 19"
    by (simp_all add: concrete_defs)
  from l have h: "19 \<le> length (enemies nineteen_enemies)" by simp
  note a = game_over_is_final [of nineteen_enemies 0 0]
  from a h have n: "\<not> state (timeout 0 0 nineteen_enemies)" by blast
  note b = game_over_is_final [of "timeout 0 0 nineteen_enemies" 0 0 "click_at 125 125" "Tick 0 0"
      "[Tick 0 0, Click (click_at 125 125), Tick 0 0]"]
  from s l h n a b show ?thesis by blast
qed

text \<open>
  C10. From the empty game, under every interleaving of ticks and clicks, there are never
  more than 20 live enemies. A run of \<^verbatim>\<open>timeout\<close> adds exactly one enemy, and a
  click never adds one.
\<close>

theorem enemies_at_most_20:
  "length (enemies (run evs (init el d))) \<le> 20
   \<and> length (enemies (timeout r1 r2 g)) = Suc (length (enemies g))
   \<and> length (enemies (mouseclick e g)) \<le> length (enemies g)"
  using sched_ok_length [OF run_sched_ok [OF init_sched_ok]]
  by (simp add: timeout_enemies click_length)

theorem enemies_at_most_20_witness:
  "length (enemies (run twenty_ticks (init canvas500 1000))) = 20 \<and>
   length (enemies (run (twenty_ticks @ [Tick 0 0, Click (click_at 0 0), Tick 0 0])
                      (init canvas500 1000))) \<le> 20"
  using twenty_ticks_length
    enemies_at_most_20 [of "twenty_ticks @ [Tick 0 0, Click (click_at 0 0), Tick 0 0]" canvas500 1000]
  by simp



section \<open>The difficulty curve\<close>

text \<open>
  C6. The delay between spawns, \<open>1000 * difficulty\<close>, starts at 1000. Each run of
  \<^verbatim>\<open>timeout\<close> updates it once, to \<open>d * 0.98\<close> if \<open>d * 0.98 > 100\<close> and to \<open>d\<close>
  otherwise, and hands the updated delay to \<^verbatim>\<open>setTimeout\<close> when it reschedules; a
  click leaves it alone. So along every sequence of events the delay never grows, stays
  strictly above 100 once it is above 100 (as it is from the start), and no longer changes
  once \<open>d * 0.98 \<le> 100\<close>.
\<close>

theorem delay_recurrence:
  "delay (init el d) = 1000
   \<and> delay (timeout r1 r2 g) = (if delay g * 0.98 > 100 then delay g * 0.98 else delay g)
   \<and> (Suc (length (enemies g)) < 20 \<longrightarrow>
        timers (timeout r1 r2 g) = timers g @ [delay (timeout r1 r2 g)])
   \<and> delay (mouseclick e g) = delay g
   \<and> delay (run evs g) \<le> delay g
   \<and> (100 < delay g \<longrightarrow> 100 < delay (run evs g))
   \<and> 100 < delay (run evs (init el d))
   \<and> (delay g * 0.98 \<le> 100 \<longrightarrow> delay (run evs g) = delay g)"
proof -
  have i: "delay (init el d) = 1000" by (simp add: delay_def init_def)
  then have "100 < delay (init el d)" by simp
  then have "100 < delay (run evs (init el d))" by (rule delay_run_above)
  moreover have "Suc (length (enemies g)) < 20 \<longrightarrow>
        timers (timeout r1 r2 g) = timers g @ [delay (timeout r1 r2 g)]"
    by (simp add: timeout_timers delay_def)
  ultimately show ?thesis
    using i delay_timeout delay_click delay_run_le delay_run_above delay_run_floor by blast
qed

theorem delay_recurrence_witness:
  "delay three_enemies = 1000 \<and> delay (timeout 0 0 three_enemies) = 980 \<and>
   delay (timeout 0 0 (timeout 0 0 three_enemies)) = 960.4 \<and>
   timers (timeout 0 0 three_enemies) = [1000, 980] \<and>
   100 < delay (run two_ticks three_enemies) \<and>
   delay near_floor = 102 \<and> delay near_floor * 0.98 \<le> 100 \<and>
   delay (timeout 0 0 near_floor) = 102 \<and>
   delay (run two_ticks near_floor) = 102"
proof -
  have a: "delay three_enemies = 1000" "length (enemies three_enemies) = 3"
    "timers three_enemies = [1000]"
    by (simp_all add: concrete_defs delay_def)
  have b: "delay near_floor = 102" by (simp add: near_floor_def delay_def)
  note t = delay_recurrence [of canvas500 1000 0 0 three_enemies "click_at 0 0" two_ticks]
  note u = delay_recurrence [of canvas500 1000 0 0 "timeout 0 0 three_enemies" "click_at 0 0" two_ticks]
  note n = delay_recurrence [of canvas500 1000 0 0 near_floor "click_at 0 0" two_ticks]
  from a t have c: "delay (timeout 0 0 three_enemies) = 980" by simp
  from c u have d: "delay (timeout 0 0 (timeout 0 0 three_enemies)) = 960.4" by simp
  from a c t have e: "timers (timeout 0 0 three_enemies) = [1000, 980]" by simp
  from a t have f: "100 < delay (run two_ticks three_enemies)" by simp
  from b n have g: "delay (timeout 0 0 near_floor) = 102" "delay (run two_ticks near_floor) = 102"
    by simp_all
  from a b c d e f g show ?thesis by simp
qed

section \<open>Spawn positions\<close>

text \<open>
  C7. On a canvas of width \<open>W \<ge> 50\<close> and height \<open>H \<ge> 50\<close>, after any sequence of ticks and
  clicks in which every \<^verbatim>\<open>Math.random()\<close> is in [0, 1), every live enemy's rectangle
  is 50 by 50 with \<open>0 \<le> x \<le> W - 50\<close> and \<open>0 \<le> y \<le> H - 50\<close>.
\<close>

theorem spawned_rect_in_canvas:
  assumes "50 \<le> W" "50 \<le> H" "list_all random_ok evs"
    and "a \<in> set (enemies (run evs (init (HTMLElement W H l t parent) d)))"
  shows "0 \<le> xy_x (rect_xy (enemy_rect (heap (run evs (init (HTMLElement W H l t parent) d)) a)))
       \<and> xy_x (rect_xy (enemy_rect (heap (run evs (init (HTMLElement W H l t parent) d)) a))) \<le> W - 50
       \<and> 0 \<le> xy_y (rect_xy (enemy_rect (heap (run evs (init (HTMLElement W H l t parent) d)) a)))
       \<and> xy_y (rect_xy (enemy_rect (heap (run evs (init (HTMLElement W H l t parent) d)) a))) \<le> H - 50
       \<and> rect_wh (enemy_rect (heap (run evs (init (HTMLElement W H l t parent) d)) a))
           = \<lparr>wh_w = 50, wh_h = 50\<rparr>"
proof -
  let ?g = "init (HTMLElement W H l t parent) d"
  have c: "canvas ?g = \<lparr>element = HTMLElement W H l t parent\<rparr>" and e: "enemies ?g = []"
    by (simp_all add: init_def)
  from assms(1,2,3) have "canvas (run evs ?g) = canvas ?g \<and>
         (\<forall>a\<in>set (enemies (run evs ?g)).
            a < fresh (run evs ?g) \<and> fits (canvas ?g) (enemy_rect (heap (run evs ?g) a)))"
    by (intro run_fits) (simp_all add: c e)
  with assms(4) have "fits (canvas ?g) (enemy_rect (heap (run evs ?g) a))" by blast
  then show ?thesis by (simp add: fits_def c Canvas_width_def Canvas_height_def)
qed

theorem spawned_rect_in_canvas_witness:
  "(50::real) \<le> 500 \<and> list_all random_ok two_ticks \<and>
   1 \<in> set (enemies (run two_ticks (init canvas500 1000))) \<and>
   enemy_rect (heap (run two_ticks (init canvas500 1000)) 1) =
     \<lparr>rect_xy = \<lparr>xy_x = 0, xy_y = 405\<rparr>, rect_wh = \<lparr>wh_w = 50, wh_h = 50\<rparr>\<rparr> \<and>
   (405::real) \<le> 500 - 50"
proof -
  have w: "(50::real) \<le> 500" by simp
  have r: "list_all random_ok two_ticks" by (simp add: two_ticks_def)
  have m: "1 \<in> set (enemies (run two_ticks (init (HTMLElement 500 500 0 0 None) 1000)))"
    using two_ticks_enemies by (simp add: canvas500_def)
  from spawned_rect_in_canvas [OF w w r m] w r two_ticks_enemies two_ticks_heap
  show ?thesis by (simp add: canvas500_def)
qed

section \<open>The basic variant against the full game\<close>

text \<open>
  C9. On the same enemies, the same objects and the same canvas, the click handler of the
  basic variant does what the click handler of the full game does while the game runs: the
  resulting arrays of enemies are equal, and so is everything else the basic variant has.
  Its spawn callback adds the enemy that \<^verbatim>\<open>timeout\<close> adds. What the full game has
  beyond that (score, difficulty, the running flag, the timers) the basic variant lacks.
\<close>

theorem basic_variant_agrees:
  "(state g \<longrightarrow>
      mouseclick_basic e (basic_of g) = basic_of (mouseclick e g) \<and>
      enemies_basic (mouseclick_basic e (basic_of g)) = enemies (mouseclick e g))
   \<and> spawn_basic r1 r2 (basic_of g) = basic_of (timeout r1 r2 g)"
proof -
  have "mouseclick_basic e (basic_of g) = basic_of (mouseclick e g)" if "state g"
    unfolding mouseclick_basic_def mouseclick_def using that by (rule basic_loop_agrees)
  moreover have "enemies_basic (basic_of w) = enemies w" for w
    by (simp add: basic_of_def)
  ultimately show ?thesis using spawn_basic_agrees by simp
qed

theorem basic_variant_agrees_witness:
  "state three_enemies \<and>
   enemies_basic (basic_of three_enemies) = [0, 1, 2] \<and>
   enemies (mouseclick (click_at 125 125) three_enemies) = [0, 2] \<and>
   enemies_basic (mouseclick_basic (click_at 125 125) (basic_of three_enemies)) = [0, 2]"
proof -
  have s: "state three_enemies" by (simp add: concrete_defs)
  have en: "enemies three_enemies = [0, 1, 2]" by (simp add: concrete_defs)
  have h: "hit three_enemies (click_at 125 125) (enemies three_enemies ! 1)"
    "\<forall>k<1. \<not> hit three_enemies (click_at 125 125) (enemies three_enemies ! k)"
    by (simp_all add: concrete_defs)
  have "enemies (mouseclick (click_at 125 125) three_enemies) = [0, 2]"
    using mouseclick_hit [OF s _ h] en by simp
  with s en basic_variant_agrees [of three_enemies "click_at 125 125"] show ?thesis
    by (simp add: basic_of_def)
qed

end
